theory Spec2Isabelle
  imports Complex_Main "HOL-Library.Multiset"
begin

section \<open>JavaScript numbers\<close>

text \<open>
  The TypeScript type \<open>number\<close> holds, besides the finite values, the three special
  values \<open>NaN\<close>, \<open>Infinity\<close> and \<open>-Infinity\<close>; \<open>parseFloat\<close> returns each of
  them (\<open>parseFloat("abc")\<close> is \<open>NaN\<close>, \<open>parseFloat("Infinity")\<close> is \<open>Infinity\<close>).
  The checks of the program (\<open>isNaN\<close>, the comparisons, the fallback \<open>x || 0\<close>)
  behave differently on them, so they are part of the model. Finite values are
  modelled as exact reals: the rounding and the overflow of the binary64
  representation and the sign of zero are not modelled, so a finite result of the
  model is the result of the program only up to rounding. The statements about
  balances below use no law of addition: they hold of any arithmetic on finite values.
\<close>

datatype jsnum = NaN | NegInf | PosInf | Fin real

fun isNaN :: "jsnum \<Rightarrow> bool" where
  "isNaN NaN = True"
| "isNaN _ = False"

fun js_neg :: "jsnum \<Rightarrow> jsnum" where
  "js_neg NaN = NaN"
| "js_neg NegInf = PosInf"
| "js_neg PosInf = NegInf"
| "js_neg (Fin a) = Fin (- a)"

fun js_add :: "jsnum \<Rightarrow> jsnum \<Rightarrow> jsnum" where
  "js_add NaN _ = NaN"
| "js_add _ NaN = NaN"
| "js_add PosInf NegInf = NaN"
| "js_add NegInf PosInf = NaN"
| "js_add PosInf _ = PosInf"
| "js_add _ PosInf = PosInf"
| "js_add NegInf _ = NegInf"
| "js_add _ NegInf = NegInf"
| "js_add (Fin a) (Fin b) = Fin (a + b)"

definition js_sub :: "jsnum \<Rightarrow> jsnum \<Rightarrow> jsnum" where
  "js_sub x y = js_add x (js_neg y)"

fun js_sign_inf :: "real \<Rightarrow> jsnum \<Rightarrow> jsnum" where
  "js_sign_inf a x = (if a = 0 then NaN else if 0 < a then x else js_neg x)"

fun js_mul :: "jsnum \<Rightarrow> jsnum \<Rightarrow> jsnum" where
  "js_mul NaN _ = NaN"
| "js_mul _ NaN = NaN"
| "js_mul (Fin a) (Fin b) = Fin (a * b)"
| "js_mul (Fin a) PosInf = js_sign_inf a PosInf"
| "js_mul (Fin a) NegInf = js_sign_inf a NegInf"
| "js_mul PosInf (Fin b) = js_sign_inf b PosInf"
| "js_mul NegInf (Fin b) = js_sign_inf b NegInf"
| "js_mul PosInf PosInf = PosInf"
| "js_mul PosInf NegInf = NegInf"
| "js_mul NegInf PosInf = NegInf"
| "js_mul NegInf NegInf = PosInf"

text \<open>Division; a zero divisor is taken as \<open>+0\<close>. The program only divides by 100.\<close>

fun js_div :: "jsnum \<Rightarrow> jsnum \<Rightarrow> jsnum" where
  "js_div NaN _ = NaN"
| "js_div _ NaN = NaN"
| "js_div (Fin a) (Fin b) =
     (if b = 0 then (if a = 0 then NaN else if 0 < a then PosInf else NegInf)
      else Fin (a / b))"
| "js_div (Fin a) _ = Fin 0"
| "js_div PosInf (Fin b) = (if 0 \<le> b then PosInf else NegInf)"
| "js_div NegInf (Fin b) = (if 0 \<le> b then NegInf else PosInf)"
| "js_div _ _ = NaN"

text \<open>Comparisons: every comparison with \<open>NaN\<close> is false.\<close>

fun js_lt :: "jsnum \<Rightarrow> jsnum \<Rightarrow> bool" where
  "js_lt NaN _ = False"
| "js_lt _ NaN = False"
| "js_lt (Fin a) (Fin b) = (a < b)"
| "js_lt NegInf NegInf = False"
| "js_lt NegInf _ = True"
| "js_lt _ NegInf = False"
| "js_lt PosInf _ = False"
| "js_lt _ PosInf = True"

definition js_le :: "jsnum \<Rightarrow> jsnum \<Rightarrow> bool" where
  "js_le x y = (js_lt x y \<or> (\<not> isNaN x \<and> \<not> isNaN y \<and> x = y))"

definition js_gt :: "jsnum \<Rightarrow> jsnum \<Rightarrow> bool" where
  "js_gt x y = js_lt y x"

definition js_ge :: "jsnum \<Rightarrow> jsnum \<Rightarrow> bool" where
  "js_ge x y = js_le y x"

text \<open>Truthiness of a number, and the idiom \<open>x || d\<close>: \<open>0\<close> and \<open>NaN\<close> are falsy.\<close>

definition truthy :: "jsnum \<Rightarrow> bool" where
  "truthy x = (\<not> isNaN x \<and> x \<noteq> Fin 0)"

definition js_or :: "jsnum \<Rightarrow> jsnum \<Rightarrow> jsnum" where
  "js_or x d = (if truthy x then x else d)"

text \<open>
  \<open>String.prototype.trim\<close> on the ASCII white space and line terminators (tab, line
  feed, vertical tab, form feed, carriage return, space). The white space beyond ASCII
  that \<open>trim\<close> strips as well (U+00A0, U+FEFF, U+2028 and others) is not modelled.
\<close>

definition js_whitespace :: "char \<Rightarrow> bool" where
  "js_whitespace c = (c \<in> {CHR 0x09, CHR 0x0A, CHR 0x0B, CHR 0x0C, CHR 0x0D, CHR '' ''})"

definition trim :: "string \<Rightarrow> string" where
  "trim s = rev (dropWhile js_whitespace (rev (dropWhile js_whitespace s)))"


section \<open>Data model (types.ts)\<close>

record partner =
  partner_id :: string
  partner_name :: string
  percentage :: jsnum

record sale =
  sale_id :: string
  sale_name :: string
  description :: "string option"
  purchasePrice :: jsnum
  soldPrice :: jsnum
  profit :: jsnum
  sale_timestamp :: nat
  partnerIds :: "string list"

record settlement =
  settlement_id :: string
  partnerId :: string
  amount :: jsnum
  settlement_timestamp :: nat

text \<open>The three collections of one owner: the state of \<open>App\<close>, and what the store keeps per user.\<close>

record ledger =
  sales :: "sale list"
  partners :: "partner list"
  settlements :: "settlement list"

definition empty_ledger :: ledger where
  "empty_ledger = \<lparr>sales = [], partners = [], settlements = []\<rparr>"


section \<open>Balance computation (PartnerManagement, \<open>partnerBalances\<close>)\<close>

type_synonym balances = "string \<rightharpoonup> jsnum"

text \<open>\<open>balances.get(k) || 0\<close>: a missing key reads as \<open>undefined\<close>, which is falsy.\<close>

definition get_or0 :: "balances \<Rightarrow> string \<Rightarrow> jsnum" where
  "get_or0 b k = (case b k of None \<Rightarrow> Fin 0 | Some v \<Rightarrow> js_or v (Fin 0))"

text \<open>\<open>partners.forEach(p => balances.set(p.id, 0))\<close>\<close>

definition init_balances :: "partner list \<Rightarrow> balances" where
  "init_balances ps = fold (\<lambda>p b. b(partner_id p \<mapsto> Fin 0)) ps Map.empty"

text \<open>The body of \<open>assignedPartners.forEach\<close>.\<close>

definition credit_partner :: "sale \<Rightarrow> partner \<Rightarrow> balances \<Rightarrow> balances" where
  "credit_partner s p b =
     (let currentBalance = get_or0 b (partner_id p);
          cut = js_div (js_mul (profit s) (percentage p)) (Fin 100)
      in b(partner_id p \<mapsto> js_add currentBalance cut))"

text \<open>
  The body of \<open>sales.forEach\<close>. The guard \<open>if (sale.partnerIds)\<close> is true of every
  array, so of every value of the declared type \<open>string[]\<close>.
\<close>

definition credit_sale :: "partner list \<Rightarrow> sale \<Rightarrow> balances \<Rightarrow> balances" where
  "credit_sale ps s b =
     (let assignedPartners = filter (\<lambda>p. partner_id p \<in> set (partnerIds s)) ps
      in if length assignedPartners > 0 then fold (credit_partner s) assignedPartners b else b)"

text \<open>The body of \<open>settlements.forEach\<close>.\<close>

definition debit_settlement :: "settlement \<Rightarrow> balances \<Rightarrow> balances" where
  "debit_settlement t b =
     (let currentBalance = get_or0 b (partnerId t)
      in b(partnerId t \<mapsto> js_sub currentBalance (amount t)))"

definition partnerBalances :: "partner list \<Rightarrow> sale list \<Rightarrow> settlement list \<Rightarrow> balances" where
  "partnerBalances ps ss ts =
     fold debit_settlement ts (fold (credit_sale ps) ss (init_balances ps))"


section \<open>Validation and mutation\<close>

text \<open>
  The forms report a rejection by setting an error message and returning; the model
  returns the reason as a value. The reasons and their messages:
  \<^item> \<open>InvalidName\<close>: "Partner name cannot be empty." and "Please enter a name for the sale."
  \<^item> \<open>InvalidPercentage\<close>: "Percentage must be a number between 1 and 100."
  \<^item> \<open>AllocationExceeded t\<close>: "Adding this partner would exceed 100%. Current total: t%"
  \<^item> \<open>InvalidPrice\<close>: "Please enter valid positive numbers for prices."
  \<^item> \<open>InvalidMargin\<close>: "Sold price cannot be less than purchase price."
  \<^item> \<open>InvalidAmount\<close>: "Please enter a valid positive amount."
  \<^item> \<open>ExceedsOwed o\<close>: "Cannot settle more than the owed amount of $o."
\<close>

datatype validation_error =
    InvalidName
  | InvalidPercentage
  | AllocationExceeded jsnum
  | InvalidPrice
  | InvalidMargin
  | InvalidAmount
  | ExceedsOwed jsnum

text \<open>The arguments of the callbacks: \<open>Omit<Partner, 'id'>\<close> and its siblings.\<close>

record partner_data =
  pd_name :: string
  pd_percentage :: jsnum

record sale_data =
  sd_name :: string
  sd_description :: string
  sd_purchasePrice :: jsnum
  sd_soldPrice :: jsnum
  sd_partnerIds :: "string list"

record settlement_data =
  st_partnerId :: string
  st_amount :: jsnum

subsection \<open>Partners\<close>

text \<open>\<open>partners.reduce((sum, p) => sum + p.percentage, 0)\<close>\<close>

definition totalPercentage :: "partner list \<Rightarrow> jsnum" where
  "totalPercentage ps = fold (\<lambda>p sum. js_add sum (percentage p)) ps (Fin 0)"

text \<open>
  \<open>handleSubmit\<close> of \<open>PartnerManagement\<close>; \<open>perc\<close> is \<open>parseFloat(percentage)\<close>.
  \<open>Inr\<close> carries the argument of \<open>onAddPartner\<close>.
\<close>

definition PartnerManagement_handleSubmit ::
  "partner list \<Rightarrow> string \<Rightarrow> jsnum \<Rightarrow> validation_error + partner_data" where
  "PartnerManagement_handleSubmit ps name perc =
     (if trim name = [] then Inl InvalidName
      else if isNaN perc \<or> js_le perc (Fin 0) \<or> js_gt perc (Fin 100) then Inl InvalidPercentage
      else if js_gt (js_add (totalPercentage ps) perc) (Fin 100)
        then Inl (AllocationExceeded (totalPercentage ps))
      else Inr \<lparr>pd_name = name, pd_percentage = perc\<rparr>)"

text \<open>\<open>handleAddPartner\<close> of \<open>App\<close>; \<open>uuid\<close> is the result of \<open>crypto.randomUUID()\<close>.\<close>

definition handleAddPartner :: "partner_data \<Rightarrow> string \<Rightarrow> ledger \<Rightarrow> ledger" where
  "handleAddPartner d uuid L =
     L\<lparr>partners := partners L @
        [\<lparr>partner_id = uuid, partner_name = pd_name d, percentage = pd_percentage d\<rparr>]\<rparr>"

text \<open>\<open>handleDeletePartner\<close> of \<open>App\<close>: the cascade over the three collections.\<close>

definition handleDeletePartner :: "string \<Rightarrow> ledger \<Rightarrow> ledger" where
  "handleDeletePartner d L =
     \<lparr>sales = map (\<lambda>s. if d \<in> set (partnerIds s)
                        then s\<lparr>partnerIds := filter (\<lambda>pid. pid \<noteq> d) (partnerIds s)\<rparr>
                        else s) (sales L),
      partners = filter (\<lambda>p. partner_id p \<noteq> d) (partners L),
      settlements = filter (\<lambda>t. partnerId t \<noteq> d) (settlements L)\<rparr>"

subsection \<open>Sales\<close>

text \<open>
  \<open>handleSubmit\<close> of \<open>AddSaleForm\<close>; \<open>pPrice\<close> and \<open>sPrice\<close> are the results of
  \<open>parseFloat\<close>. \<open>Inr\<close> carries the argument of \<open>onAddSale\<close>.
\<close>

definition AddSaleForm_handleSubmit ::
  "string \<Rightarrow> string \<Rightarrow> jsnum \<Rightarrow> jsnum \<Rightarrow> string list \<Rightarrow> validation_error + sale_data" where
  "AddSaleForm_handleSubmit name descr pPrice sPrice selectedPartnerIds =
     (if trim name = [] then Inl InvalidName
      else if isNaN pPrice \<or> isNaN sPrice \<or> js_lt pPrice (Fin 0) \<or> js_lt sPrice (Fin 0)
        then Inl InvalidPrice
      else if js_lt sPrice pPrice then Inl InvalidMargin
      else Inr \<lparr>sd_name = name, sd_description = descr, sd_purchasePrice = pPrice,
                sd_soldPrice = sPrice, sd_partnerIds = selectedPartnerIds\<rparr>)"

text \<open>The new sale of \<open>handleAddSale\<close> and of \<open>addSale\<close>; \<open>now\<close> is \<open>Date.now()\<close>.\<close>

definition newSale :: "sale_data \<Rightarrow> string \<Rightarrow> nat \<Rightarrow> sale" where
  "newSale d uuid now =
     \<lparr>sale_id = uuid, sale_name = sd_name d, description = Some (sd_description d),
      purchasePrice = sd_purchasePrice d, soldPrice = sd_soldPrice d,
      profit = js_sub (sd_soldPrice d) (sd_purchasePrice d),
      sale_timestamp = now, partnerIds = sd_partnerIds d\<rparr>"

definition handleAddSale :: "sale_data \<Rightarrow> string \<Rightarrow> nat \<Rightarrow> ledger \<Rightarrow> ledger" where
  "handleAddSale d uuid now L = L\<lparr>sales := newSale d uuid now # sales L\<rparr>"

subsection \<open>Settlements\<close>

text \<open>
  \<open>handleSettle\<close>: \<open>amount\<close> is \<open>parseFloat(settlementAmount)\<close>. Without a selected
  partner the function returns at once (\<open>None\<close>). \<open>Inr\<close> carries the argument of
  \<open>onAddSettlement\<close>.
\<close>

definition handleSettle ::
  "partner option \<Rightarrow> jsnum \<Rightarrow> balances \<Rightarrow> (validation_error + settlement_data) option" where
  "handleSettle settlementPartner amnt partnerBalances' =
     (case settlementPartner of
        None \<Rightarrow> None
      | Some p \<Rightarrow>
          (let owed = get_or0 partnerBalances' (partner_id p)
           in if isNaN amnt \<or> js_le amnt (Fin 0) then Some (Inl InvalidAmount)
              else if js_gt amnt owed then Some (Inl (ExceedsOwed owed))
              else Some (Inr \<lparr>st_partnerId = partner_id p, st_amount = amnt\<rparr>)))"

definition handleAddSettlement :: "settlement_data \<Rightarrow> string \<Rightarrow> nat \<Rightarrow> ledger \<Rightarrow> ledger" where
  "handleAddSettlement d uuid now L =
     L\<lparr>settlements := settlements L @
        [\<lparr>settlement_id = uuid, partnerId = st_partnerId d, amount = st_amount d,
          settlement_timestamp = now\<rparr>]\<rparr>"

subsection \<open>The store (user-scoped \<open>localStorage\<close>)\<close>

text \<open>
  \<open>getUserData\<close> reads the three keys of a user and takes a missing key as the empty
  list, so the store is a total function from user ids to ledgers. The store keeps the
  numbers as they are: the JSON text, in which \<open>NaN\<close> and the infinities become
  \<open>null\<close>, is not modelled.
\<close>

type_synonym store = "string \<Rightarrow> ledger"

definition addSale :: "string \<Rightarrow> sale_data \<Rightarrow> string \<Rightarrow> nat \<Rightarrow> store \<Rightarrow> store \<times> sale" where
  "addSale userId saleData uuid now st =
     (let sales' = sales (st userId);
          newSale' = newSale saleData uuid now;
          updatedSales = newSale' # sales'
      in (st(userId := (st userId)\<lparr>sales := updatedSales\<rparr>), newSale'))"

definition deletePartner :: "string \<Rightarrow> string \<Rightarrow> store \<Rightarrow> store" where
  "deletePartner userId d st =
     (let L = st userId;
          partners' = filter (\<lambda>p. partner_id p \<noteq> d) (partners L);
          settlements' = filter (\<lambda>t. partnerId t \<noteq> d) (settlements L);
          sales' = map (\<lambda>s. if d \<in> set (partnerIds s)
                             then s\<lparr>partnerIds := filter (\<lambda>pid. pid \<noteq> d) (partnerIds s)\<rparr>
                             else s) (sales L)
      in st(userId := \<lparr>sales = sales', partners = partners', settlements = settlements'\<rparr>))"

subsection \<open>Runs of the application\<close>

text \<open>
  A request of the user with the values the environment supplies (fresh id, clock).
  A rejected request leaves the state as it is.
\<close>

datatype request =
    AddPartner string jsnum string
  | DeletePartner string
  | AddSale string string jsnum jsnum "string list" string nat
  | Settle "partner option" jsnum string nat

fun step :: "request \<Rightarrow> ledger \<Rightarrow> ledger" where
  "step (AddPartner name perc uuid) L =
     (case PartnerManagement_handleSubmit (partners L) name perc of
        Inl e \<Rightarrow> L
      | Inr d \<Rightarrow> handleAddPartner d uuid L)"
| "step (DeletePartner d) L = handleDeletePartner d L"
| "step (AddSale name descr pPrice sPrice pids uuid now) L =
     (case AddSaleForm_handleSubmit name descr pPrice sPrice pids of
        Inl e \<Rightarrow> L
      | Inr d \<Rightarrow> handleAddSale d uuid now L)"
| "step (Settle sp amnt uuid now) L =
     (case handleSettle sp amnt (partnerBalances (partners L) (sales L) (settlements L)) of
        Some (Inr d) \<Rightarrow> handleAddSettlement d uuid now L
      | _ \<Rightarrow> L)"

definition run :: "request list \<Rightarrow> ledger" where
  "run rs = fold step rs empty_ledger"

section \<open>Auxiliary definitions\<close>

text \<open>
  The entry of one key \<open>k\<close> of the balance map, computed on its own: the
  partners, sales and settlements that concern \<open>k\<close> are the only ones that touch it.
\<close>

definition or0 :: "jsnum option \<Rightarrow> jsnum" where
  "or0 v = (case v of None \<Rightarrow> Fin 0 | Some x \<Rightarrow> js_or x (Fin 0))"

definition credit_at :: "sale \<Rightarrow> partner \<Rightarrow> jsnum option \<Rightarrow> jsnum option" where
  "credit_at s p v = Some (js_add (or0 v) (js_div (js_mul (profit s) (percentage p)) (Fin 100)))"

definition debit_at :: "settlement \<Rightarrow> jsnum option \<Rightarrow> jsnum option" where
  "debit_at t v = Some (js_sub (or0 v) (amount t))"

definition assigned_at :: "string \<Rightarrow> partner list \<Rightarrow> sale \<Rightarrow> partner list" where
  "assigned_at k ps s = filter (\<lambda>p. partner_id p = k \<and> k \<in> set (partnerIds s)) ps"

definition balance_at :: "string \<Rightarrow> partner list \<Rightarrow> sale list \<Rightarrow> settlement list \<Rightarrow> jsnum option" where
  "balance_at k ps ss ts =
     fold debit_at (filter (\<lambda>t. partnerId t = k) ts)
       (fold (\<lambda>s v. fold (credit_at s) (assigned_at k ps s) v) ss
          (if k \<in> partner_id ` set ps then Some (Fin 0) else None))"

definition strip_partner :: "string \<Rightarrow> sale \<Rightarrow> sale" where
  "strip_partner d s =
     (if d \<in> set (partnerIds s) then s\<lparr>partnerIds := filter (\<lambda>pid. pid \<noteq> d) (partnerIds s)\<rparr> else s)"

definition ledger_balances :: "ledger \<Rightarrow> balances" where
  "ledger_balances L = partnerBalances (partners L) (sales L) (settlements L)"

fun is_fin :: "jsnum \<Rightarrow> bool" where
  "is_fin (Fin a) = True"
| "is_fin _ = False"

fun fin_val :: "jsnum \<Rightarrow> real" where
  "fin_val (Fin a) = a"
| "fin_val _ = 0"

text \<open>
  The closed form of the specification, in the arithmetic of \<open>number\<close>: the sum of
  the cuts of the sales that list the partner, minus the sum of the amounts of the
  settlements of the partner. It is what the computed balance is compared with.
\<close>

definition js_sum :: "jsnum list \<Rightarrow> jsnum" where
  "js_sum xs = fold (\<lambda>x acc. js_add acc x) xs (Fin 0)"

definition balance_spec :: "partner \<Rightarrow> sale list \<Rightarrow> settlement list \<Rightarrow> jsnum" where
  "balance_spec p ss ts =
     js_sub
       (js_sum (map (\<lambda>s. js_div (js_mul (profit s) (percentage p)) (Fin 100))
                    (filter (\<lambda>s. partner_id p \<in> set (partnerIds s)) ss)))
       (js_sum (map amount (filter (\<lambda>t. partnerId t = partner_id p) ts)))"

definition pct_val :: "partner \<Rightarrow> real" where
  "pct_val p = fin_val (percentage p)"

definition allocation_inv :: "partner list \<Rightarrow> bool" where
  "allocation_inv ps =
     (list_all (\<lambda>p. is_fin (percentage p) \<and> 0 < pct_val p) ps \<and> sum_list (map pct_val ps) \<le> 100)"

text \<open>
  Example data: partner A (60%) and partner B (40%), a sale of profit 100 assigned to
  both, a sale of profit 50 assigned to A, settlements to A and B, and a settlement
  whose partner does not exist.
\<close>

definition pA :: partner where
  "pA = \<lparr>partner_id = ''A'', partner_name = ''Ann'', percentage = Fin 60\<rparr>"

definition pB :: partner where
  "pB = \<lparr>partner_id = ''B'', partner_name = ''Bob'', percentage = Fin 40\<rparr>"

definition s1 :: sale where
  "s1 = \<lparr>sale_id = ''s1'', sale_name = ''phone'', description = None, purchasePrice = Fin 50,
         soldPrice = Fin 150, profit = Fin 100, sale_timestamp = 1, partnerIds = [''A'', ''B'']\<rparr>"

definition s2 :: sale where
  "s2 = \<lparr>sale_id = ''s2'', sale_name = ''desk'', description = Some ''oak'', purchasePrice = Fin 20,
         soldPrice = Fin 70, profit = Fin 50, sale_timestamp = 4, partnerIds = [''A'']\<rparr>"

definition t1 :: settlement where
  "t1 = \<lparr>settlement_id = ''t1'', partnerId = ''A'', amount = Fin 30, settlement_timestamp = 2\<rparr>"

definition t2 :: settlement where
  "t2 = \<lparr>settlement_id = ''t2'', partnerId = ''B'', amount = Fin 15, settlement_timestamp = 5\<rparr>"

definition ghost :: settlement where
  "ghost = \<lparr>settlement_id = ''t9'', partnerId = ''Z'', amount = Fin 5, settlement_timestamp = 3\<rparr>"

definition example_ledger :: ledger where
  "example_ledger = \<lparr>sales = [s1], partners = [pA, pB], settlements = [t1]\<rparr>"

definition s3 :: sale where
  "s3 = \<lparr>sale_id = ''s3'', sale_name = ''lamp'', description = None, purchasePrice = Fin 10,
         soldPrice = Fin 30, profit = Fin 20, sale_timestamp = 6, partnerIds = [''B'']\<rparr>"

text \<open>
  A run that ends with a sale of profit \<open>NaN\<close>: both prices are \<open>Infinity\<close>, which
  passes the checks of the form. New sales are put in front.
\<close>

definition nan_requests :: "request list" where
  "nan_requests =
     [AddPartner ''Ann'' (Fin 60) ''A'',
      AddSale ''phone'' '''' (Fin 50) (Fin 150) [''A''] ''s1'' 1,
      AddSale ''gold'' '''' PosInf PosInf [''A''] ''s0'' 2]"

definition sNaN :: sale where
  "sNaN = \<lparr>sale_id = ''s0'', sale_name = ''gold'', description = Some '''', purchasePrice = PosInf,
          soldPrice = PosInf, profit = NaN, sale_timestamp = 2, partnerIds = [''A'']\<rparr>"

definition sPhone :: sale where
  "sPhone = \<lparr>sale_id = ''s1'', sale_name = ''phone'', description = Some '''', purchasePrice = Fin 50,
          soldPrice = Fin 150, profit = Fin 100, sale_timestamp = 1, partnerIds = [''A'']\<rparr>"


section \<open>Lemmas\<close>

lemma get_or0_or0: "get_or0 b k = or0 (b k)"
  by (simp add: get_or0_def or0_def)

lemma init_fold_at:
  "fold (\<lambda>p b. b(partner_id p \<mapsto> Fin 0)) ps b0 k =
     (if k \<in> partner_id ` set ps then Some (Fin 0) else b0 k)"
  by (induction ps arbitrary: b0) auto

lemma init_balances_at:
  "init_balances ps k = (if k \<in> partner_id ` set ps then Some (Fin 0) else None)"
  by (simp add: init_balances_def init_fold_at)

lemma credit_partner_at:
  "credit_partner s p b k = (if partner_id p = k then credit_at s p (b k) else b k)"
  by (simp add: credit_partner_def credit_at_def get_or0_or0 Let_def)

lemma fold_credit_partner_at:
  "fold (credit_partner s) qs b k = fold (credit_at s) (filter (\<lambda>p. partner_id p = k) qs) (b k)"
  by (induction qs arbitrary: b) (simp_all add: credit_partner_at)

lemma credit_sale_at:
  "credit_sale ps s b k = fold (credit_at s) (assigned_at k ps s) (b k)"
proof -
  let ?as = "filter (\<lambda>p. partner_id p \<in> set (partnerIds s)) ps"
  have eq: "filter (\<lambda>p. partner_id p = k) ?as = assigned_at k ps s"
    unfolding assigned_at_def filter_filter by (rule filter_cong) auto
  show ?thesis
  proof (cases "?as = []")
    case True
    with eq [symmetric] have "assigned_at k ps s = []" by simp
    with True show ?thesis by (simp add: credit_sale_def)
  next
    case False
    have "fold (credit_partner s) ?as b k = fold (credit_at s) (assigned_at k ps s) (b k)"
      by (simp only: fold_credit_partner_at eq)
    with False show ?thesis by (simp add: credit_sale_def)
  qed
qed

lemma fold_credit_sale_at:
  "fold (credit_sale ps) ss b k = fold (\<lambda>s v. fold (credit_at s) (assigned_at k ps s) v) ss (b k)"
  by (induction ss arbitrary: b) (simp_all add: credit_sale_at)

lemma debit_settlement_at:
  "debit_settlement t b k = (if partnerId t = k then debit_at t (b k) else b k)"
  by (simp add: debit_settlement_def debit_at_def get_or0_or0 Let_def)

lemma fold_debit_settlement_at:
  "fold debit_settlement ts b k = fold debit_at (filter (\<lambda>t. partnerId t = k) ts) (b k)"
  by (induction ts arbitrary: b) (simp_all add: debit_settlement_at)

lemma partnerBalances_at: "partnerBalances ps ss ts k = balance_at k ps ss ts"
  by (simp add: partnerBalances_def balance_at_def fold_debit_settlement_at
      fold_credit_sale_at init_balances_at)

lemma filter_neq_id: "d \<notin> set xs \<Longrightarrow> filter (\<lambda>x. x \<noteq> d) xs = xs"
  by (induction xs) auto

lemma partnerIds_strip: "partnerIds (strip_partner d s) = filter (\<lambda>pid. pid \<noteq> d) (partnerIds s)"
  by (simp add: strip_partner_def filter_neq_id)

lemma strip_fields:
  "sale_id (strip_partner d s) = sale_id s"
  "sale_name (strip_partner d s) = sale_name s"
  "description (strip_partner d s) = description s"
  "purchasePrice (strip_partner d s) = purchasePrice s"
  "soldPrice (strip_partner d s) = soldPrice s"
  "profit (strip_partner d s) = profit s"
  "sale_timestamp (strip_partner d s) = sale_timestamp s"
  by (simp_all add: strip_partner_def)

lemma strip_idem: "strip_partner d (strip_partner d s) = strip_partner d s"
  by (simp add: strip_partner_def)

lemma handleDeletePartner_alt:
  "handleDeletePartner d L =
     \<lparr>sales = map (strip_partner d) (sales L),
      partners = filter (\<lambda>p. partner_id p \<noteq> d) (partners L),
      settlements = filter (\<lambda>t. partnerId t \<noteq> d) (settlements L)\<rparr>"
  by (simp add: handleDeletePartner_def strip_partner_def)

lemma deletePartner_alt:
  "deletePartner userId d st = st(userId := handleDeletePartner d (st userId))"
  by (simp add: deletePartner_def handleDeletePartner_def Let_def)

lemma handleDeletePartner_idem:
  "handleDeletePartner d (handleDeletePartner d L) = handleDeletePartner d L"
  by (simp add: handleDeletePartner_alt strip_idem)

lemma assigned_at_delete:
  assumes "k \<noteq> d"
  shows "assigned_at k (filter (\<lambda>p. partner_id p \<noteq> d) ps) (strip_partner d s) = assigned_at k ps s"
  unfolding assigned_at_def filter_filter partnerIds_strip
  using assms by (intro filter_cong) auto

lemma credit_at_strip: "credit_at (strip_partner d s) = credit_at s"
  by (simp add: fun_eq_iff credit_at_def strip_fields)

lemma balance_at_delete:
  assumes "k \<noteq> d"
  shows "balance_at k (filter (\<lambda>p. partner_id p \<noteq> d) ps) (map (strip_partner d) ss)
           (filter (\<lambda>t. partnerId t \<noteq> d) ts) = balance_at k ps ss ts"
proof -
  have ts: "filter (\<lambda>t. partnerId t = k) (filter (\<lambda>t. partnerId t \<noteq> d) ts)
              = filter (\<lambda>t. partnerId t = k) ts"
    unfolding filter_filter using assms by (intro filter_cong) auto
  have ids: "k \<in> partner_id ` set (filter (\<lambda>p. partner_id p \<noteq> d) ps) \<longleftrightarrow> k \<in> partner_id ` set ps"
    using assms by auto
  have ss: "fold (\<lambda>s v. fold (credit_at s) (assigned_at k (filter (\<lambda>p. partner_id p \<noteq> d) ps) s) v)
              (map (strip_partner d) ss) v0
            = fold (\<lambda>s v. fold (credit_at s) (assigned_at k ps s) v) ss v0" for v0
    by (induction ss arbitrary: v0) (simp_all add: assigned_at_delete [OF assms] credit_at_strip)
  show ?thesis
    unfolding balance_at_def ts ids ss ..
qed

lemma balance_at_dom:
  "balance_at k ps ss ts \<noteq> None \<longleftrightarrow> k \<in> partner_id ` set ps \<or> k \<in> partnerId ` set ts"
proof -
  have credit: "fold (credit_at s) qs v = None \<longleftrightarrow> qs = [] \<and> v = None" for s qs v
    by (induction qs arbitrary: v) (simp_all add: credit_at_def)
  have sales_Some: "v \<noteq> None \<Longrightarrow>
      fold (\<lambda>s v. fold (credit_at s) (assigned_at k ps s) v) ss v \<noteq> None" for v
  proof (induction ss arbitrary: v)
    case Nil
    then show ?case by simp
  next
    case (Cons a ss)
    from Cons.prems have "fold (credit_at a) (assigned_at k ps a) v \<noteq> None"
      unfolding credit by blast
    from Cons.IH [OF this] show ?case by simp
  qed
  have none: "k \<notin> partner_id ` set ps \<Longrightarrow> assigned_at k ps s = []" for s
    by (auto simp: assigned_at_def filter_empty_conv)
  have sales_None: "k \<notin> partner_id ` set ps \<Longrightarrow>
      fold (\<lambda>s v. fold (credit_at s) (assigned_at k ps s) v) ss None = None"
    by (induction ss) (simp_all add: none)
  have debit: "fold debit_at us v = None \<longleftrightarrow> us = [] \<and> v = None" for us v
    by (induction us arbitrary: v) (simp_all add: debit_at_def)
  show ?thesis
    using sales_Some sales_None
    by (auto simp: balance_at_def debit filter_empty_conv)
qed

lemma partnerBalances_dom:
  "dom (partnerBalances ps ss ts) = partner_id ` set ps \<union> partnerId ` set ts"
  using balance_at_dom [of _ ps ss ts] by (auto simp: dom_def partnerBalances_at)

lemma settle_guard:
  "(\<not> isNaN a \<and> \<not> js_le a (Fin 0) \<and> \<not> js_gt a (js_or b (Fin 0))) \<longleftrightarrow>
     (js_lt (Fin 0) a \<and> js_le a b)"
  by (cases a; cases b) (auto simp: js_le_def js_gt_def js_or_def truthy_def)

lemma settle_or0: "js_lt (Fin 0) a \<Longrightarrow> js_le a b \<Longrightarrow> js_or b (Fin 0) = b"
  by (cases a; cases b) (auto simp: js_le_def js_or_def truthy_def)

lemma handleSettle_accept_iff:
  assumes "bal (partner_id p) = Some b"
  shows "handleSettle (Some p) a bal = Some (Inr d) \<longleftrightarrow>
           js_lt (Fin 0) a \<and> js_le a b \<and> d = \<lparr>st_partnerId = partner_id p, st_amount = a\<rparr>"
  using assms settle_guard [of a b]
  by (auto simp: handleSettle_def get_or0_def Let_def)

lemma ledger_balances_add_settlement:
  "ledger_balances (handleAddSettlement d uuid now L) =
     (ledger_balances L)(st_partnerId d \<mapsto> js_sub (get_or0 (ledger_balances L) (st_partnerId d)) (st_amount d))"
  by (simp add: ledger_balances_def handleAddSettlement_def partnerBalances_def
      debit_settlement_def Let_def)

lemma balance_at_drop_settlement:
  assumes "k \<noteq> partnerId t"
  shows "balance_at k ps ss (xs @ t # ys) = balance_at k ps ss (xs @ ys)"
  using assms by (simp add: balance_at_def)

lemma is_fin_conv: "is_fin x \<longleftrightarrow> x = Fin (fin_val x)"
  by (cases x) simp_all

lemma fold_sales_relevant:
  "fold (\<lambda>s v. fold (credit_at s) (assigned_at k ps s) v) ss v =
   fold (\<lambda>s v. fold (credit_at s) (filter (\<lambda>q. partner_id q = k) ps) v)
        (filter (\<lambda>s. k \<in> set (partnerIds s)) ss) v"
proof (induction ss arbitrary: v)
  case Nil
  then show ?case by simp
next
  case (Cons s ss)
  show ?case
  proof (cases "k \<in> set (partnerIds s)")
    case True
    then have "assigned_at k ps s = filter (\<lambda>q. partner_id q = k) ps"
      by (simp add: assigned_at_def)
    with True Cons show ?thesis by simp
  next
    case False
    then have "assigned_at k ps s = []" by (simp add: assigned_at_def)
    with False Cons show ?thesis by simp
  qed
qed

lemma balance_at_relevant:
  "balance_at k ps ss ts =
     fold debit_at (filter (\<lambda>t. partnerId t = k) ts)
       (fold (\<lambda>s v. fold (credit_at s) (filter (\<lambda>q. partner_id q = k) ps) v)
          (filter (\<lambda>s. k \<in> set (partnerIds s)) ss)
          (if k \<in> partner_id ` set ps then Some (Fin 0) else None))"
  by (simp add: balance_at_def fold_sales_relevant)

lemma filter_id_distinct:
  assumes "distinct (map partner_id ps)" "p \<in> set ps"
  shows "filter (\<lambda>q. partner_id q = partner_id p) ps = [p]"
  using assms
proof (induction ps)
  case Nil
  then show ?case by simp
next
  case (Cons q ps)
  show ?case
  proof (cases "q = p")
    case True
    with Cons.prems have "\<forall>r \<in> set ps. partner_id r \<noteq> partner_id p"
      by (metis distinct.simps(2) imageI list.simps(9) set_map)
    then have "filter (\<lambda>q. partner_id q = partner_id p) ps = []"
      by (simp add: filter_empty_conv)
    with True show ?thesis by simp
  next
    case False
    with Cons.prems have "p \<in> set ps" "partner_id q \<noteq> partner_id p" by auto
    with Cons show ?thesis by simp
  qed
qed

lemma fold_percentage_fin:
  assumes "\<forall>p \<in> set ps. is_fin (percentage p)"
  shows "fold (\<lambda>p sum. js_add sum (percentage p)) ps (Fin v) = Fin (v + sum_list (map pct_val ps))"
  using assms
proof (induction ps arbitrary: v)
  case Nil
  then show ?case by simp
next
  case (Cons p ps)
  then obtain a where a: "percentage p = Fin a" by (metis is_fin_conv list.set_intros(1))
  with Cons show ?case by (simp add: pct_val_def add.assoc)
qed

lemma totalPercentage_fin:
  assumes "\<forall>p \<in> set ps. is_fin (percentage p)"
  shows "totalPercentage ps = Fin (sum_list (map pct_val ps))"
  using fold_percentage_fin [OF assms, of 0] by (simp add: totalPercentage_def)

lemma allocation_inv_total:
  assumes "allocation_inv ps"
  shows "js_le (totalPercentage ps) (Fin 100)"
proof -
  from assms have "\<forall>p \<in> set ps. is_fin (percentage p)" and "sum_list (map pct_val ps) \<le> 100"
    by (simp_all add: allocation_inv_def list_all_iff)
  then show ?thesis by (auto simp: totalPercentage_fin js_le_def)
qed

lemma percentage_range:
  assumes "\<not> isNaN perc" "\<not> js_le perc (Fin 0)" "\<not> js_gt perc (Fin 100)"
  obtains a where "perc = Fin a" "0 < a" "a \<le> 100"
  using assms by (cases perc) (auto simp: js_le_def js_gt_def)

lemma sum_list_filter_le:
  fixes f :: "'a \<Rightarrow> real"
  assumes "\<forall>x \<in> set xs. 0 \<le> f x"
  shows "sum_list (map f (filter P xs)) \<le> sum_list (map f xs)"
  using assms by (induction xs) (auto intro: add_increasing)

lemma allocation_inv_add:
  assumes "allocation_inv (partners L)"
    and "PartnerManagement_handleSubmit (partners L) name perc = Inr d"
  shows "allocation_inv (partners (handleAddPartner d uuid L))"
proof -
  from assms(2) have d: "d = \<lparr>pd_name = name, pd_percentage = perc\<rparr>"
    and r: "\<not> isNaN perc" "\<not> js_le perc (Fin 0)" "\<not> js_gt perc (Fin 100)"
    and t: "\<not> js_gt (js_add (totalPercentage (partners L)) perc) (Fin 100)"
    by (auto simp: PartnerManagement_handleSubmit_def split: if_splits)
  from r obtain a where a: "perc = Fin a" "0 < a" "a \<le> 100" by (rule percentage_range)
  from assms(1) have fin: "\<forall>p \<in> set (partners L). is_fin (percentage p)"
    by (simp add: allocation_inv_def list_all_iff)
  from t have "sum_list (map pct_val (partners L)) + a \<le> 100"
    by (simp add: totalPercentage_fin [OF fin] a js_gt_def)
  with assms(1) a show ?thesis
    by (simp add: allocation_inv_def handleAddPartner_def d pct_val_def)
qed

lemma allocation_inv_delete:
  assumes "allocation_inv (partners L)"
  shows "allocation_inv (partners (handleDeletePartner d L))"
proof -
  from assms have pos: "\<forall>p \<in> set (partners L). 0 \<le> pct_val p"
    by (auto simp: allocation_inv_def list_all_iff intro: less_imp_le)
  have "sum_list (map pct_val (filter (\<lambda>p. partner_id p \<noteq> d) (partners L)))
          \<le> sum_list (map pct_val (partners L))"
    using pos by (rule sum_list_filter_le)
  with assms show ?thesis
    by (auto simp: allocation_inv_def handleDeletePartner_def list_all_iff)
qed

lemma allocation_inv_step:
  assumes "allocation_inv (partners L)"
  shows "allocation_inv (partners (step r L))"
proof (cases r)
  case (AddPartner name perc uuid)
  with assms show ?thesis
    by (auto simp: allocation_inv_add split: sum.splits)
next
  case (DeletePartner d)
  with assms show ?thesis by (simp add: allocation_inv_delete)
next
  case (AddSale name descr pPrice sPrice pids uuid now)
  with assms show ?thesis
    by (simp add: handleAddSale_def split: sum.splits)
next
  case (Settle sp amnt uuid now)
  with assms show ?thesis
    by (simp add: handleAddSettlement_def split: option.splits sum.splits)
qed

lemma allocation_inv_fold:
  "allocation_inv (partners L) \<Longrightarrow> allocation_inv (partners (fold step rs L))"
  by (induction rs arbitrary: L) (simp_all add: allocation_inv_step)

lemma get_or0_not_NaN: "get_or0 bal k \<noteq> NaN"
  by (auto simp: get_or0_def js_or_def truthy_def split: option.splits)

lemmas example_defs = pA_def pB_def s1_def s2_def t1_def t2_def ghost_def example_ledger_def

lemmas balance_eval = partnerBalances_at balance_at_def assigned_at_def credit_at_def debit_at_def
  or0_def js_or_def truthy_def js_sub_def ledger_balances_def

lemma example_balance_A: "ledger_balances example_ledger ''A'' = Some (Fin 30)"
  by (simp add: balance_eval example_defs)

lemma example_balance_B: "ledger_balances example_ledger ''B'' = Some (Fin 40)"
  by (simp add: balance_eval example_defs)

lemma nan_run: "run nan_requests = \<lparr>sales = [sNaN, sPhone], partners = [pA], settlements = []\<rparr>"
  by (simp add: run_def nan_requests_def empty_ledger_def PartnerManagement_handleSubmit_def
      AddSaleForm_handleSubmit_def trim_def js_whitespace_def js_le_def js_gt_def
      totalPercentage_def handleAddPartner_def handleAddSale_def newSale_def js_sub_def
      sNaN_def sPhone_def pA_def)


section \<open>The claims\<close>

subsection \<open>Balance formula\<close>

text \<open>
  Claim C1, as the code has it: the balance of a partner \<open>p\<close> of the partner list is
  the result of an accumulation in list order. It starts at 0; every sale that lists
  the id of \<open>p\<close> adds \<open>profit * percentage / 100\<close> for every partner that carries
  that id (for \<open>p\<close> alone when the ids are distinct); then every settlement of that id
  subtracts its amount. Each step reads the accumulator through \<open>|| 0\<close> and computes
  in the arithmetic of \<open>number\<close>. A partner with no assigned sale and no settlement
  has an entry with balance 0.
\<close>

theorem balance_accumulation:
  assumes "p \<in> set ps"
  shows "partnerBalances ps ss ts (partner_id p) =
           fold debit_at (filter (\<lambda>t. partnerId t = partner_id p) ts)
             (fold (\<lambda>s v. fold (credit_at s) (filter (\<lambda>q. partner_id q = partner_id p) ps) v)
                (filter (\<lambda>s. partner_id p \<in> set (partnerIds s)) ss) (Some (Fin 0)))
       \<and> (distinct (map partner_id ps) \<longrightarrow>
            partnerBalances ps ss ts (partner_id p) =
              fold debit_at (filter (\<lambda>t. partnerId t = partner_id p) ts)
                (fold (\<lambda>s. credit_at s p)
                   (filter (\<lambda>s. partner_id p \<in> set (partnerIds s)) ss) (Some (Fin 0))))
       \<and> ((\<forall>s \<in> set ss. partner_id p \<notin> set (partnerIds s)) \<and>
          (\<forall>t \<in> set ts. partnerId t \<noteq> partner_id p) \<longrightarrow>
            partnerBalances ps ss ts (partner_id p) = Some (Fin 0))"
proof (intro conjI impI)
  from assms show gen: "partnerBalances ps ss ts (partner_id p) =
           fold debit_at (filter (\<lambda>t. partnerId t = partner_id p) ts)
             (fold (\<lambda>s v. fold (credit_at s) (filter (\<lambda>q. partner_id q = partner_id p) ps) v)
                (filter (\<lambda>s. partner_id p \<in> set (partnerIds s)) ss) (Some (Fin 0)))"
    by (simp add: partnerBalances_at balance_at_relevant)
  {
    assume "distinct (map partner_id ps)"
    then have "filter (\<lambda>q. partner_id q = partner_id p) ps = [p]"
      using assms by (rule filter_id_distinct)
    with gen show "partnerBalances ps ss ts (partner_id p) =
              fold debit_at (filter (\<lambda>t. partnerId t = partner_id p) ts)
                (fold (\<lambda>s. credit_at s p)
                   (filter (\<lambda>s. partner_id p \<in> set (partnerIds s)) ss) (Some (Fin 0)))"
      by simp
  }
  {
    assume b: "(\<forall>s \<in> set ss. partner_id p \<notin> set (partnerIds s)) \<and>
          (\<forall>t \<in> set ts. partnerId t \<noteq> partner_id p)"
    then have "filter (\<lambda>s. partner_id p \<in> set (partnerIds s)) ss = []"
      and "filter (\<lambda>t. partnerId t = partner_id p) ts = []"
      by (simp_all add: filter_empty_conv)
    with gen show "partnerBalances ps ss ts (partner_id p) = Some (Fin 0)" by simp
  }
qed

theorem balance_accumulation_witness:
  "pA \<in> set [pA, pB] \<and> distinct (map partner_id [pA, pB]) \<and>
   partnerBalances [pA, pB] [s1, s2] [t1, t2] (partner_id pA) = Some (Fin 60) \<and>
   pB \<in> set [pA, pB] \<and>
   partner_id pB \<notin> set (partnerIds s2) \<and> partnerId t1 \<noteq> partner_id pB \<and>
   partnerBalances [pA, pB] [s2] [t1] (partner_id pB) = Some (Fin 0)"
proof -
  have h1: "pA \<in> set [pA, pB]" and h1': "pB \<in> set [pA, pB]" by simp_all
  have h3: "distinct (map partner_id [pA, pB])" by (simp add: example_defs)
  have h4: "(\<forall>s \<in> set [s2]. partner_id pB \<notin> set (partnerIds s)) \<and>
            (\<forall>t \<in> set [t1]. partnerId t \<noteq> partner_id pB)"
    by (simp add: example_defs)
  have v: "fold debit_at (filter (\<lambda>t. partnerId t = partner_id pA) [t1, t2])
             (fold (\<lambda>s. credit_at s pA)
                (filter (\<lambda>s. partner_id pA \<in> set (partnerIds s)) [s1, s2]) (Some (Fin 0)))
           = Some (Fin 60)"
    by (simp add: credit_at_def debit_at_def or0_def js_or_def truthy_def js_sub_def example_defs)
  from balance_accumulation [OF h1, of "[s1, s2]" "[t1, t2]"] h3
  have "partnerBalances [pA, pB] [s1, s2] [t1, t2] (partner_id pA) =
      fold debit_at (filter (\<lambda>t. partnerId t = partner_id pA) [t1, t2])
             (fold (\<lambda>s. credit_at s pA)
                (filter (\<lambda>s. partner_id pA \<in> set (partnerIds s)) [s1, s2]) (Some (Fin 0)))"
    by blast
  then have e1: "partnerBalances [pA, pB] [s1, s2] [t1, t2] (partner_id pA) = Some (Fin 60)"
    unfolding v .
  from balance_accumulation [OF h1', of "[s2]" "[t1]"] h4
  have e2: "partnerBalances [pA, pB] [s2] [t1] (partner_id pB) = Some (Fin 0)"
    by blast
  from h4 have h5: "partner_id pB \<notin> set (partnerIds s2)" "partnerId t1 \<noteq> partner_id pB"
    by simp_all
  from h1 h3 e1 h1' h5 e2 show ?thesis by blast
qed

text \<open>
  The claim as stated fails. After a partner at 60%, a sale of profit 100 and a sale
  with both prices \<open>Infinity\<close> (profit \<open>NaN\<close>), the sales are \<open>[sNaN, sPhone]\<close>: the
  accumulator \<open>NaN\<close> is read as 0 by the next step, so the balance is 60, while the
  difference of the two sums is \<open>NaN\<close>.
\<close>

theorem balance_formula_counterexample:
  "sales (run nan_requests) = [sNaN, sPhone] \<and> partners (run nan_requests) = [pA] \<and>
   settlements (run nan_requests) = [] \<and>
   partnerBalances [pA] [sNaN, sPhone] [] (partner_id pA) = Some (Fin 60) \<and>
   balance_spec pA [sNaN, sPhone] [] = NaN"
proof -
  have a: "partnerBalances [pA] [sNaN, sPhone] [] (partner_id pA) = Some (Fin 60)"
    by (simp add: balance_eval pA_def sNaN_def sPhone_def)
  have b: "balance_spec pA [sNaN, sPhone] [] = NaN"
    by (simp add: balance_spec_def js_sum_def js_sub_def pA_def sNaN_def sPhone_def)
  from a b show ?thesis by (simp add: nan_run)
qed


subsection \<open>Settlement requests\<close>

text \<open>
  Claim C2: a partner \<open>p\<close> of the ledger has a computed balance \<open>b\<close>; a settlement
  request of amount \<open>a\<close> for \<open>p\<close> is accepted if and only if \<open>0 < a\<close> and
  \<open>a \<le> b\<close>; once the accepted settlement is appended, the recomputed balance map is
  the old one with the entry of \<open>p\<close> set to \<open>b - a\<close>, so every other entry is
  unchanged; a rejected request leaves the ledger as it is.
\<close>

theorem settlement_accepted:
  assumes "p \<in> set (partners L)"
  shows "\<exists>b. ledger_balances L (partner_id p) = Some b \<and>
           ((\<exists>d. handleSettle (Some p) a (ledger_balances L) = Some (Inr d)) \<longleftrightarrow>
              js_lt (Fin 0) a \<and> js_le a b) \<and>
           (js_lt (Fin 0) a \<and> js_le a b \<longrightarrow>
              ledger_balances (step (Settle (Some p) a uuid now) L) =
                (ledger_balances L)(partner_id p \<mapsto> js_sub b a)) \<and>
           (\<not> (js_lt (Fin 0) a \<and> js_le a b) \<longrightarrow> step (Settle (Some p) a uuid now) L = L)"
proof -
  from assms have "partner_id p \<in> dom (ledger_balances L)"
    by (simp add: ledger_balances_def partnerBalances_dom)
  then obtain b where b: "ledger_balances L (partner_id p) = Some b" by blast
  note iff = handleSettle_accept_iff [of "ledger_balances L" p b, OF b]
  have acc: "(\<exists>d. handleSettle (Some p) a (ledger_balances L) = Some (Inr d)) \<longleftrightarrow>
              js_lt (Fin 0) a \<and> js_le a b"
    by (simp add: iff)
  have eff: "ledger_balances (step (Settle (Some p) a uuid now) L) =
                (ledger_balances L)(partner_id p \<mapsto> js_sub b a)"
    if a: "js_lt (Fin 0) a \<and> js_le a b"
  proof -
    let ?d = "\<lparr>st_partnerId = partner_id p, st_amount = a\<rparr>"
    from a have h: "handleSettle (Some p) a (ledger_balances L) = Some (Inr ?d)"
      by (simp add: iff)
    have "get_or0 (ledger_balances L) (partner_id p) = b"
      using b settle_or0 [of a b] a by (simp add: get_or0_def)
    then show ?thesis
      using h by (simp add: ledger_balances_add_settlement ledger_balances_def [symmetric])
  qed
  have rej: "step (Settle (Some p) a uuid now) L = L" if "\<not> (js_lt (Fin 0) a \<and> js_le a b)"
  proof -
    from that have "\<And>d. handleSettle (Some p) a (ledger_balances L) \<noteq> Some (Inr d)"
      unfolding iff by blast
    then show ?thesis
      by (auto simp: ledger_balances_def [symmetric] split: option.splits sum.splits)
  qed
  from b acc eff rej show ?thesis by blast
qed

theorem settlement_accepted_witness:
  "pA \<in> set (partners example_ledger) \<and>
   ledger_balances example_ledger (partner_id pA) = Some (Fin 30) \<and>
   js_lt (Fin 0) (Fin 10) \<and> js_le (Fin 10) (Fin 30) \<and>
   handleSettle (Some pA) (Fin 10) (ledger_balances example_ledger)
     = Some (Inr \<lparr>st_partnerId = ''A'', st_amount = Fin 10\<rparr>) \<and>
   ledger_balances (step (Settle (Some pA) (Fin 10) ''t3'' 7) example_ledger) =
     (ledger_balances example_ledger)(partner_id pA \<mapsto> Fin 20) \<and>
   \<not> (js_lt (Fin 0) (Fin 50) \<and> js_le (Fin 50) (Fin 30)) \<and>
   step (Settle (Some pA) (Fin 50) ''t3'' 7) example_ledger = example_ledger"
proof -
  have h: "pA \<in> set (partners example_ledger)" by (simp add: example_ledger_def)
  have bA: "ledger_balances example_ledger (partner_id pA) = Some (Fin 30)"
    using example_balance_A by (simp add: pA_def)
  have ok: "js_lt (Fin 0) (Fin 10) \<and> js_le (Fin 10) (Fin 30)" by (simp add: js_le_def)
  have no: "\<not> (js_lt (Fin 0) (Fin 50) \<and> js_le (Fin 50) (Fin 30))" by (simp add: js_le_def)
  from settlement_accepted [OF h, of "Fin 10" "''t3''" 7] bA ok
  have e1: "(\<exists>d. handleSettle (Some pA) (Fin 10) (ledger_balances example_ledger) = Some (Inr d))"
    and e2: "ledger_balances (step (Settle (Some pA) (Fin 10) ''t3'' 7) example_ledger) =
     (ledger_balances example_ledger)(partner_id pA \<mapsto> js_sub (Fin 30) (Fin 10))"
    by auto
  from e1 have e1': "handleSettle (Some pA) (Fin 10) (ledger_balances example_ledger)
     = Some (Inr \<lparr>st_partnerId = ''A'', st_amount = Fin 10\<rparr>)"
    by (auto simp: handleSettle_def Let_def pA_def split: if_splits)
  from settlement_accepted [OF h, of "Fin 50" "''t3''" 7] bA no
  have e3: "step (Settle (Some pA) (Fin 50) ''t3'' 7) example_ledger = example_ledger"
    by auto
  from h bA ok e1' e2 no e3 show ?thesis by (simp add: js_sub_def)
qed


subsection \<open>Allocation invariant\<close>

text \<open>
  Claim C3: in every state that a sequence of requests reaches from the empty ledger
  (adding a partner commits only when the validation passes), the sum of the
  percentages of the partners is at most 100.
\<close>

theorem allocation_invariant: "js_le (totalPercentage (partners (run rs))) (Fin 100)"
proof -
  have "allocation_inv (partners empty_ledger)"
    by (simp add: allocation_inv_def empty_ledger_def)
  then have "allocation_inv (partners (run rs))"
    unfolding run_def by (rule allocation_inv_fold)
  then show ?thesis by (rule allocation_inv_total)
qed

theorem allocation_invariant_witness:
  "js_le (totalPercentage (partners (run
      [AddPartner ''Ann'' (Fin 60) ''A'', AddPartner ''Bob'' (Fin 40) ''B'',
       AddPartner ''Cy'' (Fin 50) ''C'', DeletePartner ''A'']))) (Fin 100)"
  by (rule allocation_invariant)


subsection \<open>Cascade of a partner deletion\<close>

text \<open>
  Claim C4: deleting \<open>d\<close> removes the partners with id \<open>d\<close> and the settlements of
  \<open>d\<close> and keeps the others in order; every sale stays at its position, loses \<open>d\<close>
  from its \<open>partnerIds\<close> and keeps every other field; deleting twice gives the state
  that deleting once gives; deleting an id that no partner has returns a ledger with
  the partner list as it was. The deletion of the store is the same cascade on the
  ledger of the user.
\<close>

theorem delete_cascade:
  "d \<notin> partner_id ` set (partners (handleDeletePartner d L))
   \<and> partners (handleDeletePartner d L) = filter (\<lambda>p. partner_id p \<noteq> d) (partners L)
   \<and> d \<notin> partnerId ` set (settlements (handleDeletePartner d L))
   \<and> settlements (handleDeletePartner d L) = filter (\<lambda>t. partnerId t \<noteq> d) (settlements L)
   \<and> length (sales (handleDeletePartner d L)) = length (sales L)
   \<and> (\<forall>i < length (sales L).
        d \<notin> set (partnerIds (sales (handleDeletePartner d L) ! i)) \<and>
        sales (handleDeletePartner d L) ! i =
          (sales L ! i)\<lparr>partnerIds := filter (\<lambda>pid. pid \<noteq> d) (partnerIds (sales L ! i))\<rparr>)
   \<and> handleDeletePartner d (handleDeletePartner d L) = handleDeletePartner d L
   \<and> (d \<notin> partner_id ` set (partners L) \<longrightarrow> partners (handleDeletePartner d L) = partners L)
   \<and> deletePartner u d st = st(u := handleDeletePartner d (st u))
   \<and> deletePartner u d (deletePartner u d st) = deletePartner u d st"
proof (intro conjI allI impI)
  show "d \<notin> partner_id ` set (partners (handleDeletePartner d L))"
    by (auto simp: handleDeletePartner_alt)
  show "d \<notin> partnerId ` set (settlements (handleDeletePartner d L))"
    by (auto simp: handleDeletePartner_alt)
  show "\<And>i. i < length (sales L) \<Longrightarrow> d \<notin> set (partnerIds (sales (handleDeletePartner d L) ! i))"
    by (simp add: handleDeletePartner_alt partnerIds_strip)
  show "\<And>i. i < length (sales L) \<Longrightarrow>
     sales (handleDeletePartner d L) ! i =
       (sales L ! i)\<lparr>partnerIds := filter (\<lambda>pid. pid \<noteq> d) (partnerIds (sales L ! i))\<rparr>"
    by (simp add: handleDeletePartner_alt strip_partner_def filter_neq_id)
  show "d \<notin> partner_id ` set (partners L) \<Longrightarrow> partners (handleDeletePartner d L) = partners L"
    by (auto simp: handleDeletePartner_alt filter_id_conv)
  show "deletePartner u d (deletePartner u d st) = deletePartner u d st"
    by (simp add: deletePartner_alt handleDeletePartner_idem)
qed (simp_all add: handleDeletePartner_alt strip_idem deletePartner_alt)

theorem delete_cascade_witness:
  "(0::nat) < length (sales example_ledger) \<and>
   sales (handleDeletePartner ''B'' example_ledger) ! 0 = (sales example_ledger ! 0)\<lparr>partnerIds := [''A'']\<rparr> \<and>
   partners (handleDeletePartner ''B'' example_ledger) = [pA] \<and>
   handleDeletePartner ''B'' (handleDeletePartner ''B'' example_ledger) = handleDeletePartner ''B'' example_ledger \<and>
   ''Z'' \<notin> partner_id ` set (partners example_ledger) \<and>
   partners (handleDeletePartner ''Z'' example_ledger) = partners example_ledger"
proof -
  note c = delete_cascade [of "''B''" example_ledger "''u''" "\<lambda>_. example_ledger"]
  note z = delete_cascade [of "''Z''" example_ledger "''u''" "\<lambda>_. example_ledger"]
  have i: "(0::nat) < length (sales example_ledger)" by (simp add: example_ledger_def)
  from c i have "sales (handleDeletePartner ''B'' example_ledger) ! 0 =
      (sales example_ledger ! 0)\<lparr>partnerIds := filter (\<lambda>pid. pid \<noteq> ''B'') (partnerIds (sales example_ledger ! 0))\<rparr>"
    by blast
  then have e1: "sales (handleDeletePartner ''B'' example_ledger) ! 0 = (sales example_ledger ! 0)\<lparr>partnerIds := [''A'']\<rparr>"
    by (simp add: example_ledger_def s1_def)
  from c have "partners (handleDeletePartner ''B'' example_ledger) =
                 filter (\<lambda>p. partner_id p \<noteq> ''B'') (partners example_ledger)"
    by blast
  then have e2: "partners (handleDeletePartner ''B'' example_ledger) = [pA]"
    by (simp add: example_ledger_def pA_def pB_def)
  from c have e3: "handleDeletePartner ''B'' (handleDeletePartner ''B'' example_ledger) = handleDeletePartner ''B'' example_ledger"
    by blast
  have n: "''Z'' \<notin> partner_id ` set (partners example_ledger)"
    by (simp add: example_ledger_def pA_def pB_def)
  from z n have e4: "partners (handleDeletePartner ''Z'' example_ledger) = partners example_ledger"
    by blast
  from i e1 e2 e3 n e4 show ?thesis by blast
qed


subsection \<open>Settlements of a partner that does not exist\<close>

text \<open>
  Claim C5, as the code has it: a settlement \<open>t\<close> whose \<open>partnerId\<close> is the id of no
  partner changes the balance of no partner, and the entry of no key other than its
  own \<open>partnerId\<close>; under that key the computation does create an entry. When no other
  settlement names that id, there is no entry without \<open>t\<close>, the entry with \<open>t\<close> is
  \<open>0 - amount\<close>, and the two results differ.
\<close>

theorem orphan_settlement_frame:
  assumes "partnerId t \<notin> partner_id ` set ps"
  shows "(\<forall>p \<in> set ps. partnerBalances ps ss (xs @ t # ys) (partner_id p) =
                         partnerBalances ps ss (xs @ ys) (partner_id p)) \<and>
         (\<forall>k. k \<noteq> partnerId t \<longrightarrow>
                partnerBalances ps ss (xs @ t # ys) k = partnerBalances ps ss (xs @ ys) k) \<and>
         partnerId t \<in> dom (partnerBalances ps ss (xs @ t # ys)) \<and>
         (partnerId t \<notin> partnerId ` set (xs @ ys) \<longrightarrow>
            partnerBalances ps ss (xs @ ys) (partnerId t) = None \<and>
            partnerBalances ps ss (xs @ t # ys) (partnerId t) = Some (js_sub (Fin 0) (amount t)) \<and>
            partnerBalances ps ss (xs @ t # ys) \<noteq> partnerBalances ps ss (xs @ ys))"
proof (intro conjI ballI allI impI)
  fix p assume "p \<in> set ps"
  with assms have "partner_id p \<noteq> partnerId t" by (metis imageI)
  then show "partnerBalances ps ss (xs @ t # ys) (partner_id p) =
             partnerBalances ps ss (xs @ ys) (partner_id p)"
    by (simp add: partnerBalances_at balance_at_drop_settlement)
next
  fix k assume "k \<noteq> partnerId t"
  then show "partnerBalances ps ss (xs @ t # ys) k = partnerBalances ps ss (xs @ ys) k"
    by (simp add: partnerBalances_at balance_at_drop_settlement)
next
  show "partnerId t \<in> dom (partnerBalances ps ss (xs @ t # ys))"
    by (simp add: partnerBalances_dom)
next
  assume only: "partnerId t \<notin> partnerId ` set (xs @ ys)"
  with assms have "partnerId t \<notin> dom (partnerBalances ps ss (xs @ ys))"
    unfolding partnerBalances_dom by blast
  then show none: "partnerBalances ps ss (xs @ ys) (partnerId t) = None" by blast
  from only have "\<forall>u \<in> set xs \<union> set ys. partnerId u \<noteq> partnerId t"
    by (metis imageI set_append)
  then have fx: "filter (\<lambda>u. partnerId u = partnerId t) xs = []"
    and fy: "filter (\<lambda>u. partnerId u = partnerId t) ys = []"
    by (simp_all add: filter_empty_conv)
  from assms have "\<forall>q \<in> set ps. partner_id q \<noteq> partnerId t"
    by (metis imageI)
  then have "assigned_at (partnerId t) ps s = []" for s
    by (simp add: assigned_at_def filter_empty_conv)
  then have sn: "fold (\<lambda>s v. fold (credit_at s) (assigned_at (partnerId t) ps s) v) ss None = None"
    by (induction ss) simp_all
  from assms show some: "partnerBalances ps ss (xs @ t # ys) (partnerId t) = Some (js_sub (Fin 0) (amount t))"
    by (simp add: partnerBalances_at balance_at_def fx fy sn debit_at_def or0_def)
  from none some show "partnerBalances ps ss (xs @ t # ys) \<noteq> partnerBalances ps ss (xs @ ys)"
    by (metis option.distinct(1))
qed

theorem orphan_settlement_witness:
  "partnerId ghost \<notin> partner_id ` set [pA, pB] \<and>
   pA \<in> set [pA, pB] \<and>
   partnerBalances [pA, pB] [s1] ([t1] @ ghost # [t2]) (partner_id pA) =
     partnerBalances [pA, pB] [s1] ([t1] @ [t2]) (partner_id pA) \<and>
   partnerId ghost \<in> dom (partnerBalances [pA, pB] [s1] ([t1] @ ghost # [t2])) \<and>
   partnerId ghost \<notin> partnerId ` set ([t1] @ [t2]) \<and>
   partnerBalances [pA, pB] [s1] ([t1] @ ghost # [t2]) (partnerId ghost) = Some (Fin (- 5)) \<and>
   partnerBalances [pA, pB] [s1] ([t1] @ ghost # [t2]) \<noteq> partnerBalances [pA, pB] [s1] ([t1] @ [t2])"
proof -
  have h: "partnerId ghost \<notin> partner_id ` set [pA, pB]" by (simp add: example_defs)
  have m: "pA \<in> set [pA, pB]" by simp
  have n: "partnerId ghost \<notin> partnerId ` set ([t1] @ [t2])" by (simp add: example_defs)
  note o = orphan_settlement_frame [OF h, of "[s1]" "[t1]" "[t2]"]
  from o m have e1: "partnerBalances [pA, pB] [s1] ([t1] @ ghost # [t2]) (partner_id pA) =
     partnerBalances [pA, pB] [s1] ([t1] @ [t2]) (partner_id pA)"
    by blast
  from o have e2: "partnerId ghost \<in> dom (partnerBalances [pA, pB] [s1] ([t1] @ ghost # [t2]))"
    by blast
  from o n have "partnerBalances [pA, pB] [s1] ([t1] @ ghost # [t2]) (partnerId ghost)
                  = Some (js_sub (Fin 0) (amount ghost))"
    by blast
  then have e3: "partnerBalances [pA, pB] [s1] ([t1] @ ghost # [t2]) (partnerId ghost) = Some (Fin (- 5))"
    by (simp add: js_sub_def ghost_def)
  from o n have e4: "partnerBalances [pA, pB] [s1] ([t1] @ ghost # [t2]) \<noteq> partnerBalances [pA, pB] [s1] ([t1] @ [t2])"
    by blast
  from h m e1 e2 n e3 e4 show ?thesis by blast
qed

text \<open>
  The claim as stated fails: the settlement of the unknown partner \<open>Z\<close> creates the
  entry \<open>Z \<mapsto> -5\<close>, so the result differs from the one without the settlement.
\<close>

theorem orphan_settlement_counterexample:
  "partnerId ghost \<notin> partner_id ` set [pA, pB] \<and>
   partnerBalances [pA, pB] [s1] [t1, ghost] \<noteq> partnerBalances [pA, pB] [s1] [t1] \<and>
   partnerBalances [pA, pB] [s1] [t1, ghost] (partnerId ghost) = Some (Fin (- 5))"
proof -
  have h: "partnerId ghost \<notin> partner_id ` set [pA, pB]" by (simp add: example_defs)
  have a: "partnerBalances [pA, pB] [s1] [t1, ghost] (partnerId ghost) = Some (Fin (- 5))"
    by (simp add: balance_eval example_defs)
  have b: "partnerBalances [pA, pB] [s1] [t1] (partnerId ghost) = None"
    by (simp add: balance_eval example_defs)
  from a b have "partnerBalances [pA, pB] [s1] [t1, ghost] \<noteq> partnerBalances [pA, pB] [s1] [t1]"
    by (metis option.distinct(1))
  with h a show ?thesis by blast
qed


subsection \<open>Permutation of the inputs\<close>

text \<open>
  Claim C6, as the code has it: two snapshots with the same partner list, in which the
  sales that list an id \<open>k\<close> come in the same order and the settlements of \<open>k\<close> come
  in the same order, give \<open>k\<close> the same balance. So moving the entries of different
  partners past each other changes no balance.
\<close>

theorem balance_order:
  assumes "filter (\<lambda>s. k \<in> set (partnerIds s)) ss' = filter (\<lambda>s. k \<in> set (partnerIds s)) ss"
    and "filter (\<lambda>t. partnerId t = k) ts' = filter (\<lambda>t. partnerId t = k) ts"
  shows "partnerBalances ps ss' ts' k = partnerBalances ps ss ts k"
  by (simp add: partnerBalances_at balance_at_relevant assms)

theorem balance_order_witness:
  "mset [s3, s2] = mset [s2, s3] \<and> mset [t2, t1] = mset [t1, t2] \<and>
   filter (\<lambda>s. ''A'' \<in> set (partnerIds s)) [s3, s2] = filter (\<lambda>s. ''A'' \<in> set (partnerIds s)) [s2, s3] \<and>
   filter (\<lambda>t. partnerId t = ''A'') [t2, t1] = filter (\<lambda>t. partnerId t = ''A'') [t1, t2] \<and>
   partnerBalances [pA, pB] [s3, s2] [t2, t1] ''A'' = partnerBalances [pA, pB] [s2, s3] [t1, t2] ''A''"
proof -
  have m: "mset [s3, s2] = mset [s2, s3]" "mset [t2, t1] = mset [t1, t2]" by simp_all
  have h1: "filter (\<lambda>s. ''A'' \<in> set (partnerIds s)) [s3, s2] = filter (\<lambda>s. ''A'' \<in> set (partnerIds s)) [s2, s3]"
    by (simp add: s2_def s3_def)
  have h2: "filter (\<lambda>t. partnerId t = ''A'') [t2, t1] = filter (\<lambda>t. partnerId t = ''A'') [t1, t2]"
    by (simp add: t1_def t2_def)
  show ?thesis
    by (intro conjI) (rule m(1), rule m(2), rule h1, rule h2, rule balance_order [OF h1 h2])
qed

text \<open>
  The claim as stated fails: permuting the two sales of one partner changes the
  balance from 60 to \<open>NaN\<close>.
\<close>

theorem balance_permutation_counterexample:
  "mset [sPhone, sNaN] = mset [sNaN, sPhone] \<and>
   partnerBalances [pA] [sNaN, sPhone] [] ''A'' = Some (Fin 60) \<and>
   partnerBalances [pA] [sPhone, sNaN] [] ''A'' = Some NaN"
  by (simp add: balance_eval pA_def sNaN_def sPhone_def)


subsection \<open>Invalid settlement amounts\<close>

text \<open>
  Claim C7, as the code has it: a request is rejected with \<open>InvalidAmount\<close> exactly
  when its amount is \<open>NaN\<close>, zero or negative (\<open>-Infinity\<close> included). The amount
  \<open>Infinity\<close> passes that check: it is rejected with \<open>ExceedsOwed\<close>, unless the owed
  balance is \<open>Infinity\<close> itself, in which case it is accepted.
\<close>

theorem invalid_amount_rejected:
  "(isNaN a \<or> js_le a (Fin 0) \<longrightarrow> handleSettle (Some p) a bal = Some (Inl InvalidAmount)) \<and>
   (handleSettle (Some p) a bal = Some (Inl InvalidAmount) \<longrightarrow> isNaN a \<or> js_le a (Fin 0)) \<and>
   handleSettle (Some p) PosInf bal =
     (if get_or0 bal (partner_id p) = PosInf
      then Some (Inr \<lparr>st_partnerId = partner_id p, st_amount = PosInf\<rparr>)
      else Some (Inl (ExceedsOwed (get_or0 bal (partner_id p)))))"
proof (intro conjI impI)
  show "isNaN a \<or> js_le a (Fin 0) \<Longrightarrow> handleSettle (Some p) a bal = Some (Inl InvalidAmount)"
    by (auto simp: handleSettle_def Let_def)
  show "handleSettle (Some p) a bal = Some (Inl InvalidAmount) \<Longrightarrow> isNaN a \<or> js_le a (Fin 0)"
    by (auto simp: handleSettle_def Let_def split: if_splits)
  have "js_gt PosInf x \<longleftrightarrow> x \<noteq> PosInf" if "x \<noteq> NaN" for x
    using that by (cases x) (simp_all add: js_gt_def)
  then show "handleSettle (Some p) PosInf bal =
     (if get_or0 bal (partner_id p) = PosInf
      then Some (Inr \<lparr>st_partnerId = partner_id p, st_amount = PosInf\<rparr>)
      else Some (Inl (ExceedsOwed (get_or0 bal (partner_id p)))))"
    by (simp add: handleSettle_def Let_def js_le_def get_or0_not_NaN)
qed

theorem invalid_amount_witness:
  "(isNaN (Fin (- 5)) \<or> js_le (Fin (- 5)) (Fin 0)) \<and>
   handleSettle (Some pA) (Fin (- 5)) (ledger_balances example_ledger) = Some (Inl InvalidAmount) \<and>
   (isNaN NaN \<or> js_le NaN (Fin 0)) \<and>
   handleSettle (Some pA) NaN (ledger_balances example_ledger) = Some (Inl InvalidAmount)"
proof -
  have h: "isNaN (Fin (- 5)) \<or> js_le (Fin (- 5)) (Fin 0)" by (simp add: js_le_def)
  have h': "isNaN NaN \<or> js_le NaN (Fin 0)" by simp
  from invalid_amount_rejected [of "Fin (- 5)" pA "ledger_balances example_ledger"] h
  have e: "handleSettle (Some pA) (Fin (- 5)) (ledger_balances example_ledger) = Some (Inl InvalidAmount)"
    by blast
  from invalid_amount_rejected [of NaN pA "ledger_balances example_ledger"] h'
  have e': "handleSettle (Some pA) NaN (ledger_balances example_ledger) = Some (Inl InvalidAmount)"
    by blast
  from h e h' e' show ?thesis by blast
qed

text \<open>
  The claim as stated fails for the amount \<open>Infinity\<close>, which is positive and not
  finite: with an owed balance of 30 the rejection reason is \<open>ExceedsOwed\<close>.
\<close>

theorem invalid_amount_counterexample:
  "\<not> js_lt PosInf PosInf \<and> js_lt (Fin 0) PosInf \<and>
   handleSettle (Some pA) PosInf (ledger_balances example_ledger) = Some (Inl (ExceedsOwed (Fin 30))) \<and>
   handleSettle (Some pA) PosInf (ledger_balances example_ledger) \<noteq> Some (Inl InvalidAmount)"
proof -
  have "get_or0 (ledger_balances example_ledger) (partner_id pA) = Fin 30"
    using example_balance_A by (simp add: get_or0_def pA_def js_or_def truthy_def)
  then have "handleSettle (Some pA) PosInf (ledger_balances example_ledger) = Some (Inl (ExceedsOwed (Fin 30)))"
    by (simp add: handleSettle_def Let_def js_le_def js_gt_def)
  then show ?thesis by simp
qed


subsection \<open>Allocation check of a new partner\<close>

text \<open>
  Claim C8: for a partner list whose total \<open>S\<close> is at most 100 and a request that
  passes the checks of the name (not blank) and of the percentage (\<open>0 < p \<le> 100\<close>),
  the partner is appended if and only if \<open>S + p \<le> 100\<close>; otherwise the request is
  rejected with \<open>AllocationExceeded\<close>, which carries the current total \<open>S\<close>, and the
  ledger is unchanged.
\<close>

theorem allocation_check:
  assumes "trim name \<noteq> []" "js_lt (Fin 0) p" "js_le p (Fin 100)"
    and "js_le (totalPercentage (partners L)) (Fin 100)"
  shows "(js_le (js_add (totalPercentage (partners L)) p) (Fin 100) \<longrightarrow>
            PartnerManagement_handleSubmit (partners L) name p = Inr \<lparr>pd_name = name, pd_percentage = p\<rparr> \<and>
            step (AddPartner name p uuid) L =
              L\<lparr>partners := partners L @ [\<lparr>partner_id = uuid, partner_name = name, percentage = p\<rparr>]\<rparr>) \<and>
         (\<not> js_le (js_add (totalPercentage (partners L)) p) (Fin 100) \<longrightarrow>
            PartnerManagement_handleSubmit (partners L) name p =
              Inl (AllocationExceeded (totalPercentage (partners L))) \<and>
            step (AddPartner name p uuid) L = L)"
proof -
  from assms(2,3) obtain a where a: "p = Fin a" "0 < a" "a \<le> 100"
    by (cases p) (auto simp: js_le_def)
  from assms(4) consider "totalPercentage (partners L) = NegInf"
    | S where "totalPercentage (partners L) = Fin S"
    by (cases "totalPercentage (partners L)") (auto simp: js_le_def)
  then show ?thesis
    using a(2,3)
    by cases (auto simp: PartnerManagement_handleSubmit_def a(1) assms(1) js_le_def js_gt_def handleAddPartner_def)
qed

theorem allocation_check_witness:
  "trim ''Cy'' \<noteq> [] \<and> js_lt (Fin 0) (Fin 50) \<and> js_le (Fin 50) (Fin 100) \<and>
   js_le (totalPercentage (partners example_ledger)) (Fin 100) \<and>
   \<not> js_le (js_add (totalPercentage (partners example_ledger)) (Fin 50)) (Fin 100) \<and>
   PartnerManagement_handleSubmit (partners example_ledger) ''Cy'' (Fin 50) = Inl (AllocationExceeded (Fin 100)) \<and>
   js_le (js_add (totalPercentage (partners (handleDeletePartner ''B'' example_ledger))) (Fin 40)) (Fin 100) \<and>
   partners (step (AddPartner ''Cy'' (Fin 40) ''C'') (handleDeletePartner ''B'' example_ledger)) =
     [pA, \<lparr>partner_id = ''C'', partner_name = ''Cy'', percentage = Fin 40\<rparr>]"
proof -
  let ?L = "handleDeletePartner ''B'' example_ledger"
  have n: "trim ''Cy'' \<noteq> []" by (simp add: trim_def js_whitespace_def)
  have p: "js_lt (Fin 0) (Fin 50)" "js_le (Fin 50) (Fin 100)"
    and p': "js_lt (Fin 0) (Fin 40)" "js_le (Fin 40) (Fin 100)" by (simp_all add: js_le_def)
  have t: "totalPercentage (partners example_ledger) = Fin 100"
    by (simp add: totalPercentage_def example_defs)
  have t': "totalPercentage (partners ?L) = Fin 60"
    by (simp add: totalPercentage_def handleDeletePartner_def example_defs)
  have pl: "partners ?L = [pA]"
    by (simp add: handleDeletePartner_def example_defs)
  have s: "js_le (totalPercentage (partners example_ledger)) (Fin 100)"
    and s': "js_le (totalPercentage (partners ?L)) (Fin 100)"
    by (simp_all add: t t' js_le_def)
  have x: "\<not> js_le (js_add (totalPercentage (partners example_ledger)) (Fin 50)) (Fin 100)"
    and y: "js_le (js_add (totalPercentage (partners ?L)) (Fin 40)) (Fin 100)"
    by (simp_all add: t t' js_le_def)
  from allocation_check [OF n p s, of "''C''"] x
  have "PartnerManagement_handleSubmit (partners example_ledger) ''Cy'' (Fin 50) =
          Inl (AllocationExceeded (totalPercentage (partners example_ledger)))"
    by blast
  then have e1: "PartnerManagement_handleSubmit (partners example_ledger) ''Cy'' (Fin 50) = Inl (AllocationExceeded (Fin 100))"
    by (simp add: t)
  from allocation_check [OF n p' s', of "''C''"] y
  have "step (AddPartner ''Cy'' (Fin 40) ''C'') ?L =
          ?L\<lparr>partners := partners ?L @ [\<lparr>partner_id = ''C'', partner_name = ''Cy'', percentage = Fin 40\<rparr>]\<rparr>"
    by blast
  then have e2: "partners (step (AddPartner ''Cy'' (Fin 40) ''C'') ?L) =
     [pA, \<lparr>partner_id = ''C'', partner_name = ''Cy'', percentage = Fin 40\<rparr>]"
    by (simp add: pl)
  from n p s x e1 y e2 show ?thesis by blast
qed


subsection \<open>Margin of a new sale\<close>

text \<open>
  Claim C9: a sale request is rejected, and the ledger left as it is, whenever the sold
  price is less than the purchase price, or a price is \<open>NaN\<close> or negative; every
  created sale, in the application state and in the store, has
  \<open>profit = soldPrice - purchasePrice\<close>, which is never less than 0.
\<close>

theorem sale_margin:
  "(js_lt sPrice pPrice \<or> isNaN pPrice \<or> isNaN sPrice \<or> js_lt pPrice (Fin 0) \<or> js_lt sPrice (Fin 0) \<longrightarrow>
      (\<exists>e. AddSaleForm_handleSubmit name descr pPrice sPrice pids = Inl e) \<and>
      step (AddSale name descr pPrice sPrice pids uuid now) L = L) \<and>
   (\<forall>d. AddSaleForm_handleSubmit name descr pPrice sPrice pids = Inr d \<longrightarrow>
      sales (step (AddSale name descr pPrice sPrice pids uuid now) L) = newSale d uuid now # sales L \<and>
      snd (addSale userId d uuid now st) = newSale d uuid now \<and>
      profit (newSale d uuid now) = js_sub (soldPrice (newSale d uuid now)) (purchasePrice (newSale d uuid now)) \<and>
      profit (newSale d uuid now) = js_sub sPrice pPrice \<and>
      \<not> js_lt (profit (newSale d uuid now)) (Fin 0) \<and>
      (\<forall>x y. pPrice = Fin x \<and> sPrice = Fin y \<longrightarrow>
          profit (newSale d uuid now) = Fin (y - x) \<and> 0 \<le> y - x))"
proof (intro conjI impI allI)
  assume r: "js_lt sPrice pPrice \<or> isNaN pPrice \<or> isNaN sPrice \<or> js_lt pPrice (Fin 0) \<or> js_lt sPrice (Fin 0)"
  then show "\<exists>e. AddSaleForm_handleSubmit name descr pPrice sPrice pids = Inl e"
    by (auto simp: AddSaleForm_handleSubmit_def)
  then show "step (AddSale name descr pPrice sPrice pids uuid now) L = L"
    by auto
next
  fix d
  assume acc: "AddSaleForm_handleSubmit name descr pPrice sPrice pids = Inr d"
  then have d: "d = \<lparr>sd_name = name, sd_description = descr, sd_purchasePrice = pPrice,
                sd_soldPrice = sPrice, sd_partnerIds = pids\<rparr>"
    and g: "\<not> isNaN pPrice" "\<not> isNaN sPrice" "\<not> js_lt pPrice (Fin 0)" "\<not> js_lt sPrice (Fin 0)"
           "\<not> js_lt sPrice pPrice"
    by (auto simp: AddSaleForm_handleSubmit_def split: if_splits)
  show "sales (step (AddSale name descr pPrice sPrice pids uuid now) L) = newSale d uuid now # sales L"
    by (simp add: acc handleAddSale_def)
  show "snd (addSale userId d uuid now st) = newSale d uuid now"
    by (simp add: addSale_def Let_def)
  show "profit (newSale d uuid now) = js_sub (soldPrice (newSale d uuid now)) (purchasePrice (newSale d uuid now))"
    by (simp add: newSale_def)
  show "profit (newSale d uuid now) = js_sub sPrice pPrice"
    by (simp add: newSale_def d)
  show "\<not> js_lt (profit (newSale d uuid now)) (Fin 0)"
    using g by (cases pPrice; cases sPrice) (simp_all add: newSale_def d js_sub_def)
  show "\<And>x y. pPrice = Fin x \<and> sPrice = Fin y \<Longrightarrow> profit (newSale d uuid now) = Fin (y - x)"
    by (simp add: newSale_def d js_sub_def)
  show "\<And>x y. pPrice = Fin x \<and> sPrice = Fin y \<Longrightarrow> 0 \<le> y - x"
    using g by auto
qed

theorem sale_margin_witness:
  "js_lt (Fin 50) (Fin 80) \<and>
   step (AddSale ''phone'' '''' (Fin 80) (Fin 50) [''A''] ''s3'' 9) example_ledger = example_ledger \<and>
   AddSaleForm_handleSubmit ''phone'' '''' (Fin 50) (Fin 150) [''A''] =
     Inr \<lparr>sd_name = ''phone'', sd_description = '''', sd_purchasePrice = Fin 50,
          sd_soldPrice = Fin 150, sd_partnerIds = [''A'']\<rparr> \<and>
   profit (newSale \<lparr>sd_name = ''phone'', sd_description = '''', sd_purchasePrice = Fin 50,
          sd_soldPrice = Fin 150, sd_partnerIds = [''A'']\<rparr> ''s3'' 9) = Fin 100"
proof -
  let ?d = "\<lparr>sd_name = ''phone'', sd_description = '''', sd_purchasePrice = Fin 50,
          sd_soldPrice = Fin 150, sd_partnerIds = [''A'']\<rparr>"
  have h: "js_lt (Fin 50) (Fin 80)" by simp
  from sale_margin [of "Fin 50" "Fin 80" "''phone''" "''''" "[''A'']" "''s3''" 9 example_ledger "''u''" "\<lambda>_. example_ledger"] h
  have e1: "step (AddSale ''phone'' '''' (Fin 80) (Fin 50) [''A''] ''s3'' 9) example_ledger = example_ledger"
    by blast
  have a: "AddSaleForm_handleSubmit ''phone'' '''' (Fin 50) (Fin 150) [''A''] = Inr ?d"
    by (simp add: AddSaleForm_handleSubmit_def trim_def js_whitespace_def)
  from sale_margin [of "Fin 150" "Fin 50" "''phone''" "''''" "[''A'']" "''s3''" 9 example_ledger "''u''" "\<lambda>_. example_ledger"] a
  have "profit (newSale ?d ''s3'' 9) = Fin (150 - 50)"
    by blast
  then have e2: "profit (newSale ?d ''s3'' 9) = Fin 100" by simp
  from h e1 a e2 show ?thesis by blast
qed


subsection \<open>Frame of a partner deletion\<close>

text \<open>
  Claim C10: deleting partner \<open>d\<close> leaves the computed balance of every other id
  \<open>q\<close> as it was.
\<close>

theorem delete_frame:
  assumes "q \<noteq> d"
  shows "ledger_balances (handleDeletePartner d L) q = ledger_balances L q"
  using assms
  by (simp add: ledger_balances_def handleDeletePartner_alt partnerBalances_at balance_at_delete)

theorem delete_frame_witness:
  "''A'' \<noteq> ''B'' \<and>
   ledger_balances (handleDeletePartner ''B'' example_ledger) ''A'' = ledger_balances example_ledger ''A''"
proof -
  have h: "''A'' \<noteq> ''B''" by simp
  show ?thesis by (rule conjI) (rule h, rule delete_frame [OF h])
qed

end
